theory Spec2Isabelle
  imports Main "HOL-Library.Char_ord" "HOL-Library.List_Lexorder" "HOL-Library.Multiset"
begin

section \<open>Materialization status audit: a shallow embedding of check\_materialization.py\<close>

text \<open>
  The script audits remote datastacks. Everything it learns from outside comes through
  three doors: the wall clock (\<^verbatim>\<open>datetime.datetime.now()\<close>), the per-server listing
  client and the per-datastack client of \<^verbatim>\<open>caveclient\<close>. The embedding takes these as a
  \<open>world\<close> parameter, turns every raise into a value \<open>Inl e\<close> of a sum type, and threads a
  log of the effects performed, so that "no network access" and "the clock is read once"
  are statements about the log.
\<close>

subsection \<open>Exceptions\<close>

text \<open>
  The handler of \<^verbatim>\<open>check_materialization\<close> is \<^verbatim>\<open>except Exception\<close>. The type \<open>exn\<close> stands
  for instances of \<^verbatim>\<open>Exception\<close>: \<open>ValueError\<close> is what \<^verbatim>\<open>max\<close> raises on an empty
  iterable, \<open>TypeError\<close> and \<open>Raised name\<close> are whatever else the program or the remote
  client raises.
\<close>

datatype exn = ValueError | TypeError | Raised string

subsection \<open>Dates, as the standard library computes them\<close>

text \<open>
  \<^verbatim>\<open>datetime.date\<close> holds year, month and day; \<^verbatim>\<open>datetime.datetime\<close> adds the time
  of day. \<^verbatim>\<open>dt.date()\<close> keeps the first three fields. Subtracting two dates gives a
  \<^verbatim>\<open>timedelta\<close> whose \<^verbatim>\<open>days\<close> is the difference of the proleptic Gregorian
  ordinals (\<^verbatim>\<open>toordinal\<close>); dates compare as (year, month, day) triples.
\<close>

record py_date =
  year :: int
  month :: int
  day :: int

record py_datetime = py_date +
  hour :: int
  minute :: int
  second :: int
  microsecond :: int

definition date_of :: "py_datetime \<Rightarrow> py_date" where
  "date_of dt = \<lparr>year = year dt, month = month dt, day = day dt\<rparr>"

definition is_leap :: "int \<Rightarrow> bool" where
  "is_leap y \<longleftrightarrow> y mod 4 = 0 \<and> (y mod 100 \<noteq> 0 \<or> y mod 400 = 0)"

definition days_before_year :: "int \<Rightarrow> int" where
  "days_before_year y = (y - 1) * 365 + (y - 1) div 4 - (y - 1) div 100 + (y - 1) div 400"

definition days_in_month :: "int \<Rightarrow> int \<Rightarrow> int" where
  "days_in_month y m =
     (if m = 2 \<and> is_leap y then 29
      else if m = 2 then 28
      else if m = 4 \<or> m = 6 \<or> m = 9 \<or> m = 11 then 30
      else 31)"

definition days_before_month :: "int \<Rightarrow> int \<Rightarrow> int" where
  "days_before_month y m =
     (if m = 1 then 0 else if m = 2 then 31 else if m = 3 then 59 else if m = 4 then 90
      else if m = 5 then 120 else if m = 6 then 151 else if m = 7 then 181
      else if m = 8 then 212 else if m = 9 then 243 else if m = 10 then 273
      else if m = 11 then 304 else 334)
     + (if m > 2 \<and> is_leap y then 1 else 0)"

definition toordinal :: "'a py_date_scheme \<Rightarrow> int" where
  "toordinal d = days_before_year (year d) + days_before_month (year d) (month d) + day d"

text \<open>The constructor of \<^verbatim>\<open>date\<close> accepts exactly these triples.\<close>

definition valid_date :: "'a py_date_scheme \<Rightarrow> bool" where
  "valid_date d \<longleftrightarrow>
     1 \<le> year d \<and> year d \<le> 9999 \<and> 1 \<le> month d \<and> month d \<le> 12 \<and>
     1 \<le> day d \<and> day d \<le> days_in_month (year d) (month d)"

text \<open>\<^verbatim>\<open>(a - b).days\<close> for two dates.\<close>

definition date_sub_days :: "py_date \<Rightarrow> py_date \<Rightarrow> int" where
  "date_sub_days a b = toordinal a - toordinal b"

text \<open>\<^verbatim>\<open>a <= b\<close> and \<^verbatim>\<open>a == b\<close> on dates.\<close>

definition date_le :: "py_date \<Rightarrow> py_date \<Rightarrow> bool" where
  "date_le a b \<longleftrightarrow>
     year a < year b \<or>
     (year a = year b \<and> (month a < month b \<or> (month a = month b \<and> day a \<le> day b)))"

definition date_eq :: "py_date \<Rightarrow> py_date \<Rightarrow> bool" where
  "date_eq a b \<longleftrightarrow> year a = year b \<and> month a = month b \<and> day a = day b"

subsection \<open>Built-ins: max, str, strip, sorted\<close>

text \<open>\<^verbatim>\<open>max(iterable)\<close>: \<^verbatim>\<open>ValueError\<close> on an empty iterable, else a left-to-right scan.\<close>

fun py_max :: "int list \<Rightarrow> exn + int" where
  "py_max [] = Inl ValueError"
| "py_max (x # xs) = Inr (fold (\<lambda>v best. if best < v then v else best) xs x)"


text \<open>\<^verbatim>\<open>str(i)\<close> for an integer: decimal digits, a minus sign for negatives.\<close>

definition digit_char :: "nat \<Rightarrow> char" where
  "digit_char n = ''0123456789'' ! n"

function str_nat :: "nat \<Rightarrow> string" where
  "str_nat n = (if n < 10 then [digit_char n] else str_nat (n div 10) @ [digit_char (n mod 10)])"
  by pat_completeness auto
termination
  by (relation "measure id") auto

declare str_nat.simps [simp del]

definition py_str :: "int \<Rightarrow> string" where
  "py_str i = (if i < 0 then CHR ''-'' # str_nat (nat (- i)) else str_nat (nat i))"

text \<open>\<^verbatim>\<open>s.strip()\<close>: ASCII whitespace removed from both ends.\<close>

definition is_space :: "char \<Rightarrow> bool" where
  "is_space c \<longleftrightarrow> c \<in> set [CHR '' '', CHR 0x09, CHR 0x0A, CHR 0x0B, CHR 0x0C, CHR 0x0D]"

definition strip :: "string \<Rightarrow> string" where
  "strip s = rev (dropWhile is_space (rev (dropWhile is_space s)))"

text \<open>
  \<^verbatim>\<open>d.strftime("%Y-%m-%d")\<close>: the year with century on four digits, month and day on two,
  zero-padded, as the library documents \<^verbatim>\<open>%Y\<close>, \<^verbatim>\<open>%m\<close> and \<^verbatim>\<open>%d\<close>. (For years below 1000
  the C library underneath decides whether the leading zeros are printed; no statement
  below depends on this cell.)
\<close>

definition zfill :: "nat \<Rightarrow> string \<Rightarrow> string" where
  "zfill n s = replicate (n - length s) CHR ''0'' @ s"

definition strftime_ymd :: "py_date \<Rightarrow> string" where
  "strftime_ymd d =
     zfill 4 (py_str (year d)) @ ''-'' @ zfill 2 (py_str (month d)) @ ''-'' @ zfill 2 (py_str (day d))"

text \<open>
  \<^verbatim>\<open>sorted\<close> on a list of strings is \<open>sort\<close> under the lexicographic order on character
  lists (code-point order on the source's strings).
\<close>

subsection \<open>The outside world and the log of effects\<close>

text \<open>
  A datastack client as the script uses it: \<^verbatim>\<open>client.local_server\<close>,
  \<^verbatim>\<open>client.materialize.get_versions(expired=...)\<close>,
  \<^verbatim>\<open>client.materialize.get_timestamp(v)\<close> and \<^verbatim>\<open>str(client.materialize.server_version)\<close>.
  Each remote call may raise.
\<close>

record client =
  local_server :: string
  get_versions :: "bool \<Rightarrow> exn + int list"
  get_timestamp :: "int \<Rightarrow> exn + py_datetime"
  server_version :: "exn + string"

text \<open>The client of one server, \<^verbatim>\<open>CAVEclient(datastack_name=None, server_address=server)\<close>.\<close>

record server_client =
  get_datastacks :: "exn + string list"

text \<open>
  \<open>clock w n\<close> is what \<^verbatim>\<open>datetime.datetime.now()\<close> returns after \<open>n\<close> logged effects:
  time moves on while the audit runs.
\<close>

record world =
  clock :: "nat \<Rightarrow> py_datetime"
  CAVEclient :: "string \<Rightarrow> exn + client"
  CAVEclient_server :: "string \<Rightarrow> exn + server_client"

datatype event =
    Now
  | NewServerClient string
  | GetDatastacks string
  | NewClient string
  | GetVersions string bool
  | GetTimestamp string int
  | GetServerVersion string

type_synonym log = "event list"

definition datetime_now :: "world \<Rightarrow> log \<Rightarrow> py_datetime \<times> log" where
  "datetime_now w s = (clock w (length s), s @ [Now])"

definition new_client :: "world \<Rightarrow> string \<Rightarrow> log \<Rightarrow> (exn + client) \<times> log" where
  "new_client w datastack s = (CAVEclient w datastack, s @ [NewClient datastack])"

definition new_server_client :: "world \<Rightarrow> string \<Rightarrow> log \<Rightarrow> (exn + server_client) \<times> log" where
  "new_server_client w server s = (CAVEclient_server w server, s @ [NewServerClient server])"

definition info_get_datastacks :: "string \<Rightarrow> server_client \<Rightarrow> log \<Rightarrow> (exn + string list) \<times> log" where
  "info_get_datastacks server c s = (get_datastacks c, s @ [GetDatastacks server])"

definition materialize_get_versions ::
  "string \<Rightarrow> client \<Rightarrow> bool \<Rightarrow> log \<Rightarrow> (exn + int list) \<times> log" where
  "materialize_get_versions datastack c expired s =
     (get_versions c expired, s @ [GetVersions datastack expired])"

definition materialize_get_timestamp ::
  "string \<Rightarrow> client \<Rightarrow> int \<Rightarrow> log \<Rightarrow> (exn + py_datetime) \<times> log" where
  "materialize_get_timestamp datastack c v s =
     (get_timestamp c v, s @ [GetTimestamp datastack v])"

definition materialize_server_version ::
  "string \<Rightarrow> client \<Rightarrow> log \<Rightarrow> (exn + string) \<times> log" where
  "materialize_server_version datastack c s =
     (server_version c, s @ [GetServerVersion datastack])"

subsection \<open>check\_materialization\<close>

text \<open>
  The body of the \<^verbatim>\<open>try\<close> block (lines 49 to 52): four statements in sequence, the first
  raise ends the block.
\<close>

definition try_body ::
  "string \<Rightarrow> client \<Rightarrow> log \<Rightarrow> (exn + int \<times> int \<times> py_datetime \<times> string) \<times> log" where
  "try_body datastack c s =
     (case materialize_get_versions datastack c False s of
        (Inl e, s1) \<Rightarrow> (Inl e, s1)
      | (Inr vs, s1) \<Rightarrow>
     (case py_max vs of
        Inl e \<Rightarrow> (Inl e, s1)
      | Inr latest_version \<Rightarrow>
     (case materialize_get_versions datastack c True s1 of
        (Inl e, s2) \<Rightarrow> (Inl e, s2)
      | (Inr xs, s2) \<Rightarrow>
     (case py_max xs of
        Inl e \<Rightarrow> (Inl e, s2)
      | Inr expected_latest_version \<Rightarrow>
     (case materialize_get_timestamp datastack c latest_version s2 of
        (Inl e, s3) \<Rightarrow> (Inl e, s3)
      | (Inr latest_timestamp, s3) \<Rightarrow>
     (case materialize_server_version datastack c s3 of
        (Inl e, s4) \<Rightarrow> (Inl e, s4)
      | (Inr sv, s4) \<Rightarrow>
          (Inr (latest_version, expected_latest_version, latest_timestamp, sv), s4)))))))"

type_synonym check_result =
  "int option \<times> int option \<times> py_datetime option \<times> string \<times> string option"

text \<open>
  The client is built on line 47, before the \<^verbatim>\<open>try\<close>: a raise there leaves the function.
  A raise inside the block sets the four variables to \<^verbatim>\<open>None\<close>; the returned tuple is
  (latest version, expected latest version, latest timestamp, \<^verbatim>\<open>client.local_server\<close>,
  server version).
\<close>

definition check_materialization :: "world \<Rightarrow> string \<Rightarrow> log \<Rightarrow> (exn + check_result) \<times> log" where
  "check_materialization w datastack s =
     (case new_client w datastack s of
        (Inl e, s1) \<Rightarrow> (Inl e, s1)
      | (Inr c, s1) \<Rightarrow>
          (case try_body datastack c s1 of
             (Inr (latest_version, expected_latest_version, latest_timestamp, sv), s2) \<Rightarrow>
               (Inr (Some latest_version, Some expected_latest_version, Some latest_timestamp,
                     local_server c, Some sv), s2)
           | (Inl e, s2) \<Rightarrow>
               (Inr (None, None, None, local_server c, None), s2)))"

subsection \<open>Styling and rows\<close>

text \<open>
  A \<^verbatim>\<open>rich.text.Text\<close> is kept as its plain string and the styles passed to
  \<^verbatim>\<open>stylize\<close>, in call order. The two entries of \<^verbatim>\<open>STYLE_CONFIG\<close> are dictionaries with
  the keys \<^verbatim>\<open>color\<close> and \<^verbatim>\<open>style\<close>.
\<close>

record style_config =
  color :: string
  style :: string

record text_obj =
  plain :: string
  stylized :: "string list"

definition get_style_config :: "bool \<Rightarrow> style_config" where
  "get_style_config success =
     (if success then \<lparr>color = ''green'', style = []\<rparr>
      else \<lparr>color = ''red'', style = ''bold''\<rparr>)"

definition create_styled_text :: "string \<Rightarrow> style_config \<Rightarrow> text_obj" where
  "create_styled_text v sc =
     (let styled_text = \<lparr>plain = v, stylized = []\<rparr>;
          style_str = strip (style sc @ '' '' @ color sc)
      in if style_str \<noteq> [] then styled_text\<lparr>stylized := stylized styled_text @ [style_str]\<rparr>
         else styled_text)"

text \<open>
  \<^verbatim>\<open>format_row_data\<close>, with the parameter types of its annotations. The row has the eight
  cells of \<^verbatim>\<open>TABLE_COLUMNS\<close>, in that order.
\<close>

definition format_row_data ::
  "string \<Rightarrow> string \<Rightarrow> string \<Rightarrow> int \<Rightarrow> int \<Rightarrow> py_datetime \<Rightarrow> py_date \<Rightarrow> bool \<Rightarrow> text_obj list" where
  "format_row_data datastack server sv latest_version expected_latest_version
       latest_timestamp current_day success =
     (let sc = get_style_config success;
          days_old = date_sub_days current_day (date_of latest_timestamp);
          formatted_timestamp = strftime_ymd (date_of latest_timestamp);
          status_message = (if success then ''Success'' else ''Failed'')
      in [create_styled_text datastack sc,
          create_styled_text server sc,
          create_styled_text sv sc,
          create_styled_text (py_str expected_latest_version) sc,
          create_styled_text (py_str latest_version) sc,
          create_styled_text formatted_timestamp sc,
          create_styled_text (py_str days_old) sc,
          create_styled_text status_message sc])"

subsection \<open>The result table\<close>

record result_table =
  title :: string
  columns :: "(string \<times> string) list"
  rows :: "text_obj list list"

definition TABLE_COLUMNS :: "(string \<times> string) list" where
  "TABLE_COLUMNS =
     [(''Datastack'', ''left''), (''Server'', ''left''), (''Server Version'', ''left''),
      (''Expected Version'', ''left''), (''Latest Version'', ''left''),
      (''Latest Timestamp'', ''left''), (''Days Old'', ''left''), (''Status'', ''left'')]"

definition add_column :: "result_table \<Rightarrow> string \<times> string \<Rightarrow> result_table" where
  "add_column t c = t\<lparr>columns := columns t @ [c]\<rparr>"

definition create_result_table :: result_table where
  "create_result_table =
     fold (\<lambda>c t. add_column t c) TABLE_COLUMNS
       \<lparr>title = ''Materialization Check Results'', columns = [], rows = []\<rparr>"

text \<open>\<^verbatim>\<open>result_table.add_row(*row_data)\<close> with as many cells as there are columns.\<close>

definition add_row :: "result_table \<Rightarrow> text_obj list \<Rightarrow> result_table" where
  "add_row t r = t\<lparr>rows := rows t @ [r]\<rparr>"

subsection \<open>get\_datastacks\_to\_check\<close>

text \<open>
  The two module constants are the configuration; the functions take it as a parameter,
  \<open>module_config\<close> is the one the file ships with.
\<close>

record config =
  SERVERS_TO_CHECK :: "string list"
  DATASTACKS_TO_CHECK :: "string list"

definition module_config :: config where
  "module_config =
     \<lparr>SERVERS_TO_CHECK = [''https://global.daf-apis.com'',
                           ''https://globalv1.em.brain.allentech.org''],
      DATASTACKS_TO_CHECK = []\<rparr>"

text \<open>
  The loop over the servers (lines 132 to 136). Nothing is caught here: a raise from
  building the client or from the listing leaves the function.
\<close>

fun fetch_datastacks ::
  "world \<Rightarrow> string list \<Rightarrow> string list \<Rightarrow> log \<Rightarrow> (exn + string list) \<times> log" where
  "fetch_datastacks w [] datastacks_to_check s = (Inr datastacks_to_check, s)"
| "fetch_datastacks w (server # rest) datastacks_to_check s =
     (case new_server_client w server s of
        (Inl e, s1) \<Rightarrow> (Inl e, s1)
      | (Inr c, s1) \<Rightarrow>
          (case info_get_datastacks server c s1 of
             (Inl e, s2) \<Rightarrow> (Inl e, s2)
           | (Inr ds, s2) \<Rightarrow> fetch_datastacks w rest (datastacks_to_check @ sort ds) s2))"

definition get_datastacks_to_check :: "config \<Rightarrow> world \<Rightarrow> log \<Rightarrow> (exn + string list) \<times> log" where
  "get_datastacks_to_check cfg w s =
     (if DATASTACKS_TO_CHECK cfg = [] then fetch_datastacks w (SERVERS_TO_CHECK cfg) [] s
      else (Inr (sort (DATASTACKS_TO_CHECK cfg)), s))"

subsection \<open>main\<close>

text \<open>
  The audit loop (lines 150 to 176). A tuple whose first field is \<^verbatim>\<open>None\<close> is skipped.
  Otherwise the row is formatted from the remaining fields; the combinations in which one
  of them is \<^verbatim>\<open>None\<close> are outside the parameter types of \<^verbatim>\<open>format_row_data\<close> and are
  kept as a \<open>TypeError\<close> branch, which \<open>check_materialization\<close> never reaches
  (lemma \<open>audit_loop_Inl\<close>: an exception leaving the loop comes from the construction of a
  client).
\<close>

fun audit_loop ::
  "world \<Rightarrow> py_date \<Rightarrow> string list \<Rightarrow> result_table \<Rightarrow> log \<Rightarrow> (exn + result_table) \<times> log" where
  "audit_loop w current_day [] t s = (Inr t, s)"
| "audit_loop w current_day (datastack # rest) t s =
     (case check_materialization w datastack s of
        (Inl e, s1) \<Rightarrow> (Inl e, s1)
      | (Inr (latest_version, expected_latest_version, latest_timestamp, server, sv), s1) \<Rightarrow>
          (case latest_version of
             None \<Rightarrow> audit_loop w current_day rest t s1
           | Some lv \<Rightarrow>
               (case (expected_latest_version, latest_timestamp, sv) of
                  (Some ev, Some ts, Some v) \<Rightarrow>
                    audit_loop w current_day rest
                      (add_row t (format_row_data datastack server v lv ev ts current_day (lv = ev)))
                      s1
                | _ \<Rightarrow> (Inl TypeError, s1))))"

text \<open>
  \<^verbatim>\<open>main\<close>: read the clock, build the empty table, enumerate, audit. The value is the
  table handed to the console.
\<close>

definition main :: "config \<Rightarrow> world \<Rightarrow> log \<Rightarrow> (exn + result_table) \<times> log" where
  "main cfg w s =
     (case datetime_now w s of
        (now, s1) \<Rightarrow>
          (let current_day = date_of now;
               t = create_result_table
           in case get_datastacks_to_check cfg w s1 of
                (Inl e, s2) \<Rightarrow> (Inl e, s2)
              | (Inr datastacks_to_check, s2) \<Rightarrow> audit_loop w current_day datastacks_to_check t s2))"

subsection \<open>Derived notions used in the statements\<close>

text \<open>
  What one server's listing gives (lines 135 and 136 together): the client is built, then
  \<^verbatim>\<open>client.info.get_datastacks()\<close> is called; either may raise.
\<close>

definition server_listing :: "world \<Rightarrow> string \<Rightarrow> exn + string list" where
  "server_listing w server =
     (case CAVEclient_server w server of Inl e \<Rightarrow> Inl e | Inr c \<Rightarrow> get_datastacks c)"

text \<open>
  The row one datastack contributes to the report: the formatted row when its check
  returned four values, nothing otherwise.
\<close>

definition audit_row :: "world \<Rightarrow> py_date \<Rightarrow> string \<Rightarrow> text_obj list option" where
  "audit_row w current_day datastack =
     (case fst (check_materialization w datastack []) of
        Inr (Some lv, Some ev, Some ts, server, Some v) \<Rightarrow>
          Some (format_row_data datastack server v lv ev ts current_day (lv = ev))
      | _ \<Rightarrow> None)"

text \<open>
  A step of the \<^verbatim>\<open>try\<close> block raises: one of the two listings raises or is empty (so
  that \<^verbatim>\<open>max\<close> raises), the timestamp of the latest version cannot be fetched, or the
  server version cannot be read.
\<close>

definition fetch_raises :: "client \<Rightarrow> bool" where
  "fetch_raises c \<longleftrightarrow>
     (case get_versions c False of
        Inl e \<Rightarrow> True
      | Inr vs \<Rightarrow>
          (case py_max vs of
             Inl e \<Rightarrow> True
           | Inr lv \<Rightarrow>
               (case get_versions c True of
                  Inl e \<Rightarrow> True
                | Inr xs \<Rightarrow> isl (py_max xs) \<or> isl (get_timestamp c lv) \<or> isl (server_version c))))"

subsection \<open>A concrete world\<close>

text \<open>
  Three datastacks behind two servers: \<open>ds1\<close> is up to date, \<open>ds2\<close> has version 5
  expired with version 3 still the latest active one, the listing of versions of \<open>ds3\<close>
  raises, and no client can be built for any other name. The clock advances by a day
  with every effect.
\<close>

definition demo_timestamp :: "int \<Rightarrow> int \<Rightarrow> int \<Rightarrow> py_datetime" where
  "demo_timestamp y m d =
     \<lparr>year = y, month = m, day = d, hour = 8, minute = 30, second = 0, microsecond = 0\<rparr>"

definition demo_client :: "string \<Rightarrow> exn + client" where
  "demo_client datastack =
     (if datastack = ''ds1'' then
        Inr \<lparr>local_server = ''https://a.example'',
             get_versions = (\<lambda>expired. Inr [3, 5]),
             get_timestamp = (\<lambda>v. Inr (demo_timestamp 2024 3 10)),
             server_version = Inr ''4.30.1''\<rparr>
      else if datastack = ''ds2'' then
        Inr \<lparr>local_server = ''https://a.example'',
             get_versions = (\<lambda>expired. if expired then Inr [1, 5, 3] else Inr [1, 3]),
             get_timestamp = (\<lambda>v. if v = 3 then Inr (demo_timestamp 2024 2 27)
                                     else Inl (Raised ''HTTPError'')),
             server_version = Inr ''4.30.1''\<rparr>
      else if datastack = ''ds3'' then
        Inr \<lparr>local_server = ''https://b.example'',
             get_versions = (\<lambda>expired. Inl (Raised ''HTTPError'')),
             get_timestamp = (\<lambda>v. Inl (Raised ''HTTPError'')),
             server_version = Inl (Raised ''HTTPError'')\<rparr>
      else Inl (Raised ''ConnectionError''))"

definition demo_server :: "string \<Rightarrow> exn + server_client" where
  "demo_server server =
     (if server = ''https://a.example'' then Inr \<lparr>get_datastacks = Inr [''ds2'', ''ds1'']\<rparr>
      else if server = ''https://b.example'' then Inr \<lparr>get_datastacks = Inr [''ds3'', ''ds0'']\<rparr>
      else Inl (Raised ''ConnectionError''))"

definition demo_world :: world where
  "demo_world =
     \<lparr>clock = (\<lambda>n. demo_timestamp 2024 3 (10 + int (min n 20))),
      CAVEclient = demo_client,
      CAVEclient_server = demo_server\<rparr>"

definition demo_servers :: config where
  "demo_servers =
     \<lparr>SERVERS_TO_CHECK = [''https://a.example'', ''https://b.example''],
      DATASTACKS_TO_CHECK = []\<rparr>"

definition demo_override :: config where
  "demo_override =
     \<lparr>SERVERS_TO_CHECK = [''https://a.example'', ''https://b.example''],
      DATASTACKS_TO_CHECK = [''ds3'', ''ds1'', ''ds2'']\<rparr>"

text \<open>The day the audit of \<open>demo_world\<close> starts, and the report it must print.\<close>

definition demo_day :: py_date where
  "demo_day = \<lparr>year = 2024, month = 3, day = 10\<rparr>"

definition demo_row1 :: "text_obj list" where
  "demo_row1 =
     format_row_data ''ds1'' ''https://a.example'' ''4.30.1'' 5 5 (demo_timestamp 2024 3 10)
       demo_day True"

definition demo_row2 :: "text_obj list" where
  "demo_row2 =
     format_row_data ''ds2'' ''https://a.example'' ''4.30.1'' 3 5 (demo_timestamp 2024 2 27)
       demo_day False"

definition demo_report :: result_table where
  "demo_report = add_row (add_row create_result_table demo_row1) demo_row2"

section \<open>Properties\<close>

subsection \<open>Calendar arithmetic\<close>

lemma div_step:
  fixes x k :: int
  assumes "0 < k"
  shows "(x + 1) div k = x div k + (if (x + 1) mod k = 0 then 1 else 0)"
proof (cases "x mod k + 1 = k")
  case True
  have "x + 1 = k * (x div k) + (x mod k + 1)" by simp
  also have "\<dots> = k * (x div k + 1)" using True by (simp add: algebra_simps)
  finally have eq: "x + 1 = k * (x div k + 1)" .
  have "(x + 1) div k = x div k + 1" unfolding eq using assms by simp
  moreover have "(x + 1) mod k = 0" unfolding eq by simp
  ultimately show ?thesis by simp
next
  case False
  have lo: "0 \<le> x mod k + 1" using assms by (simp add: add_nonneg_nonneg)
  have hi: "x mod k + 1 < k" using False pos_mod_bound [OF assms, of x] by linarith
  have eq: "x + 1 = k * (x div k) + (x mod k + 1)" by simp
  have d: "(x + 1) div k = x div k" by (rule int_div_pos_eq [OF eq lo hi])
  have m: "(x + 1) mod k = x mod k + 1" by (rule int_mod_pos_eq [OF eq lo hi])
  have "x mod k + 1 \<noteq> 0" using pos_mod_sign [OF assms, of x] by linarith
  with d m show ?thesis by simp
qed

lemma mod4_of_100: "x mod 100 = 0 \<Longrightarrow> x mod 4 = (0::int)"
  using dvd_trans [of 4 100 x] by (simp add: mod_eq_0_iff_dvd)

lemma mod100_of_400: "x mod 400 = 0 \<Longrightarrow> x mod 100 = (0::int)"
  using dvd_trans [of 100 400 x] by (simp add: mod_eq_0_iff_dvd)

lemma days_before_year_Suc:
  "days_before_year (y + 1) = days_before_year y + (if is_leap y then 366 else 365)"
proof -
  have a: "y div 4 = (y - 1) div 4 + (if y mod 4 = 0 then 1 else 0)"
    using div_step [of 4 "y - 1"] by simp
  have b: "y div 100 = (y - 1) div 100 + (if y mod 100 = 0 then 1 else 0)"
    using div_step [of 100 "y - 1"] by simp
  have c: "y div 400 = (y - 1) div 400 + (if y mod 400 = 0 then 1 else 0)"
    using div_step [of 400 "y - 1"] by simp
  have m1: "y mod 100 = 0 \<Longrightarrow> y mod 4 = 0" by (rule mod4_of_100)
  have m2: "y mod 400 = 0 \<Longrightarrow> y mod 100 = 0" by (rule mod100_of_400)
  have e: "days_before_year (y + 1) = y * 365 + y div 4 - y div 100 + y div 400"
    by (simp add: days_before_year_def)
  have f: "days_before_year y = (y - 1) * 365 + (y - 1) div 4 - (y - 1) div 100 + (y - 1) div 400"
    by (simp add: days_before_year_def)
  show ?thesis
  proof (cases "y mod 4 = 0")
    case False
    with m1 m2 have "y mod 100 \<noteq> 0" "y mod 400 \<noteq> 0" by auto
    with False show ?thesis unfolding e f a b c is_leap_def by (simp add: algebra_simps)
  next
    case True
    show ?thesis
    proof (cases "y mod 100 = 0")
      case False
      with m2 have "y mod 400 \<noteq> 0" by auto
      with True False show ?thesis unfolding e f a b c is_leap_def by (simp add: algebra_simps)
    next
      case h: True
      show ?thesis
      proof (cases "y mod 400 = 0")
        case True
        with \<open>y mod 4 = 0\<close> h show ?thesis unfolding e f a b c is_leap_def by (simp add: algebra_simps)
      next
        case False
        with \<open>y mod 4 = 0\<close> h show ?thesis unfolding e f a b c is_leap_def by (simp add: algebra_simps)
      qed
    qed
  qed
qed

lemma days_before_year_mono: "y1 \<le> y2 \<Longrightarrow> days_before_year y1 \<le> days_before_year y2"
proof (induction y2 rule: int_ge_induct)
  case base
  show ?case by simp
next
  case (step i)
  then show ?case by (simp add: days_before_year_Suc)
qed

lemma month_cases:
  "1 \<le> m \<Longrightarrow> m \<le> 12 \<Longrightarrow>
   m = 1 \<or> m = 2 \<or> m = 3 \<or> m = 4 \<or> m = 5 \<or> m = 6 \<or> m = 7 \<or> m = 8 \<or> m = 9 \<or> m = 10 \<or> m = 11 \<or> m = (12::int)"
  by arith

lemma days_before_month_next:
  "1 \<le> m \<Longrightarrow> m < 12 \<Longrightarrow> days_before_month y (m + 1) = days_before_month y m + days_in_month y m"
  using month_cases [of m] by (auto simp: days_before_month_def days_in_month_def)

lemma days_before_month_last:
  "days_before_month y 12 + days_in_month y 12 = (if is_leap y then 366 else 365)"
  by (simp add: days_before_month_def days_in_month_def)

lemma days_in_month_pos: "0 < days_in_month y m"
  by (simp add: days_in_month_def)

lemma days_before_month_mono:
  assumes "1 \<le> m1" "m1 \<le> m2" "m2 \<le> 12"
  shows "days_before_month y m1 \<le> days_before_month y m2"
  using assms(2,3)
proof (induction m2 rule: int_ge_induct)
  case base
  show ?case by simp
next
  case (step i)
  have "days_before_month y (i + 1) = days_before_month y i + days_in_month y i"
    using step assms(1) by (intro days_before_month_next) auto
  with step days_in_month_pos [of y i] show ?case by simp
qed

lemma day_of_year_le:
  assumes "valid_date d"
  shows "days_before_month (year d) (month d) + day d \<le> (if is_leap (year d) then 366 else 365)"
proof -
  from assms have m: "1 \<le> month d" "month d \<le> 12"
    and dd: "day d \<le> days_in_month (year d) (month d)"
    by (auto simp: valid_date_def)
  have "days_before_month (year d) (month d) + days_in_month (year d) (month d)
          \<le> (if is_leap (year d) then 366 else 365)"
  proof (cases "month d = 12")
    case True
    then show ?thesis using days_before_month_last [of "year d"] by simp
  next
    case False
    with m have lt: "month d < 12" by simp
    have "days_before_month (year d) (month d) + days_in_month (year d) (month d)
            = days_before_month (year d) (month d + 1)"
      using days_before_month_next [OF m(1) lt] by simp
    also have "\<dots> \<le> days_before_month (year d) 12"
      using m lt by (intro days_before_month_mono) auto
    also have "\<dots> \<le> (if is_leap (year d) then 366 else 365)"
      using days_before_month_last [of "year d"] days_in_month_pos [of "year d" 12] by linarith
    finally show ?thesis .
  qed
  with dd show ?thesis by linarith
qed

lemma days_before_month_nonneg: "0 \<le> days_before_month y m"
  by (simp add: days_before_month_def)

lemma toordinal_year_less:
  assumes "valid_date a" "valid_date b" "year a < year b"
  shows "toordinal a < toordinal b"
proof -
  have "toordinal a \<le> days_before_year (year a) + (if is_leap (year a) then 366 else 365)"
    using day_of_year_le [OF assms(1)] by (simp add: toordinal_def)
  also have "\<dots> = days_before_year (year a + 1)"
    by (simp add: days_before_year_Suc)
  also have "\<dots> \<le> days_before_year (year b)"
    using assms(3) by (intro days_before_year_mono) simp
  also have "\<dots> < toordinal b"
    using assms(2) days_before_month_nonneg [of "year b" "month b"]
    by (simp add: toordinal_def valid_date_def)
  finally show ?thesis .
qed

lemma toordinal_month_less:
  assumes "valid_date a" "valid_date b" "year a = year b" "month a < month b"
  shows "toordinal a < toordinal b"
proof -
  from assms have m: "1 \<le> month a" "month a < 12" "month a + 1 \<le> month b" "month b \<le> 12"
    and da: "day a \<le> days_in_month (year a) (month a)" and db: "1 \<le> day b"
    by (auto simp: valid_date_def)
  have "days_before_month (year a) (month a) + day a
          \<le> days_before_month (year a) (month a + 1)"
    using days_before_month_next [OF m(1,2), of "year a"] da by simp
  also have "\<dots> \<le> days_before_month (year a) (month b)"
    using m by (intro days_before_month_mono) auto
  finally show ?thesis using db assms(3) by (simp add: toordinal_def)
qed

lemma toordinal_less:
  assumes "valid_date a" "valid_date b" "\<not> date_le b a"
  shows "toordinal a < toordinal b"
proof -
  have "year a < year b \<or> (year a = year b \<and> month a < month b)
          \<or> (year a = year b \<and> month a = month b \<and> day a < day b)"
    using assms(3) unfolding date_le_def by arith
  then consider "year a < year b" | "year a = year b" "month a < month b"
    | "year a = year b" "month a = month b" "day a < day b"
    by blast
  then show ?thesis
  proof cases
    case 1
    then show ?thesis by (rule toordinal_year_less [OF assms(1,2)])
  next
    case 2
    then show ?thesis by (rule toordinal_month_less [OF assms(1,2)])
  next
    case 3
    then show ?thesis by (simp add: toordinal_def)
  qed
qed

lemma date_le_total: "date_le a b \<or> date_le b a"
  by (auto simp: date_le_def)

lemma date_le_antisym: "date_le a b \<Longrightarrow> date_le b a \<Longrightarrow> date_eq a b"
  by (auto simp: date_le_def date_eq_def)

lemma date_eq_toordinal: "date_eq a b \<Longrightarrow> toordinal a = toordinal b"
  by (simp add: date_eq_def toordinal_def)

lemma date_eq_le: "date_eq a b \<Longrightarrow> date_le a b"
  by (simp add: date_eq_def date_le_def)

lemma toordinal_le_iff:
  assumes "valid_date a" "valid_date b"
  shows "toordinal a \<le> toordinal b \<longleftrightarrow> date_le a b"
proof
  assume "toordinal a \<le> toordinal b"
  then show "date_le a b" using toordinal_less [OF assms(2,1)] by fastforce
next
  assume le: "date_le a b"
  show "toordinal a \<le> toordinal b"
  proof (cases "date_le b a")
    case True
    with le show ?thesis using date_eq_toordinal date_le_antisym by fastforce
  next
    case False
    then show ?thesis using toordinal_less [OF assms] by simp
  qed
qed

lemma toordinal_eq_iff:
  assumes "valid_date a" "valid_date b"
  shows "toordinal a = toordinal b \<longleftrightarrow> date_eq a b"
proof
  assume eq: "toordinal a = toordinal b"
  then have "date_le a b" "date_le b a"
    using toordinal_le_iff [OF assms] toordinal_le_iff [OF assms(2,1)] by simp_all
  then show "date_eq a b" by (rule date_le_antisym)
qed (rule date_eq_toordinal)

subsection \<open>Integers as decimal strings\<close>

lemma digit_char_inj: "a < 10 \<Longrightarrow> b < 10 \<Longrightarrow> digit_char a = digit_char b \<Longrightarrow> a = b"
proof -
  assume a: "a < 10" and b: "b < 10" and eq: "digit_char a = digit_char b"
  have d: "distinct ''0123456789''" by simp
  have "length ''0123456789'' = 10" by simp
  with a b eq d show ?thesis
    unfolding digit_char_def by (simp only: nth_eq_iff_index_eq)
qed

lemma digit_char_not_minus: "n < 10 \<Longrightarrow> digit_char n \<noteq> CHR ''-''"
proof -
  assume "n < 10"
  then have "digit_char n \<in> set ''0123456789''"
    unfolding digit_char_def by (intro nth_mem) simp
  then show ?thesis by auto
qed

lemma str_nat_small: "n < 10 \<Longrightarrow> str_nat n = [digit_char n]"
  by (subst str_nat.simps) simp

lemma str_nat_large: "\<not> n < 10 \<Longrightarrow> str_nat n = str_nat (n div 10) @ [digit_char (n mod 10)]"
  by (subst str_nat.simps) simp

lemma str_nat_nonempty: "str_nat n \<noteq> []"
  by (cases "n < 10") (simp_all add: str_nat_small str_nat_large)

lemma str_nat_no_minus: "CHR ''-'' \<notin> set (str_nat n)"
proof (induction n rule: str_nat.induct)
  case (1 n)
  show ?case
  proof (cases "n < 10")
    case True
    then show ?thesis using digit_char_not_minus [of n] by (auto simp: str_nat_small)
  next
    case False
    then show ?thesis using 1 digit_char_not_minus [of "n mod 10"]
      by (auto simp: str_nat_large)
  qed
qed

lemma str_nat_inj: "str_nat n = str_nat m \<Longrightarrow> n = m"
proof (induction n arbitrary: m rule: str_nat.induct)
  case (1 n)
  show ?case
  proof (cases "n < 10")
    case n: True
    show ?thesis
    proof (cases "m < 10")
      case True
      with n "1.prems" show ?thesis by (auto simp: str_nat_small dest: digit_char_inj)
    next
      case False
      with n "1.prems" str_nat_nonempty [of "m div 10"] show ?thesis
        by (simp add: str_nat_small str_nat_large)
    qed
  next
    case n: False
    show ?thesis
    proof (cases "m < 10")
      case True
      with n "1.prems" str_nat_nonempty [of "n div 10"] show ?thesis
        by (simp add: str_nat_small str_nat_large)
    next
      case False
      with n "1.prems" have a: "str_nat (n div 10) = str_nat (m div 10)"
        and b: "digit_char (n mod 10) = digit_char (m mod 10)"
        by (simp_all add: str_nat_large)
      from "1.IH" [OF n a] have "n div 10 = m div 10" .
      moreover from b have "n mod 10 = m mod 10" by (intro digit_char_inj) simp_all
      ultimately show ?thesis by (metis div_mult_mod_eq)
    qed
  qed
qed

lemma py_str_inj: "py_str i = py_str j \<longleftrightarrow> i = j"
proof
  assume eq: "py_str i = py_str j"
  show "i = j"
  proof (cases "i < 0")
    case i: True
    show ?thesis
    proof (cases "j < 0")
      case True
      with i eq have "nat (- i) = nat (- j)" by (auto simp: py_str_def dest: str_nat_inj)
      with i True show ?thesis by simp
    next
      case False
      with i eq have e: "CHR ''-'' # str_nat (nat (- i)) = str_nat (nat j)"
        by (simp add: py_str_def)
      have "CHR ''-'' \<in> set (str_nat (nat j))"
        unfolding e [symmetric] by simp
      then show ?thesis using str_nat_no_minus by blast
    qed
  next
    case i: False
    show ?thesis
    proof (cases "j < 0")
      case True
      with i eq have e: "str_nat (nat i) = CHR ''-'' # str_nat (nat (- j))"
        by (simp add: py_str_def)
      have "CHR ''-'' \<in> set (str_nat (nat i))"
        unfolding e by simp
      then show ?thesis using str_nat_no_minus by blast
    next
      case False
      with i eq have "nat i = nat j" by (auto simp: py_str_def dest: str_nat_inj)
      with i False show ?thesis by simp
    qed
  qed
qed simp

subsection \<open>The check of one datastack\<close>

lemma py_max_fold: "fold (\<lambda>v best. if best < v then v else best) xs (x::int) = Max (set (x # xs))"
proof -
  have "(\<lambda>v best::int. if best < v then v else best) = max"
    by (auto simp: fun_eq_iff max_def)
  moreover have "fold max xs x = Max (set (x # xs))"
    by (rule Max.set_eq_fold [symmetric])
  ultimately show ?thesis by (simp only:)
qed

lemma py_max_Inr_iff: "py_max xs = Inr m \<longleftrightarrow> xs \<noteq> [] \<and> m = Max (set xs)"
proof (cases xs)
  case Nil
  then show ?thesis by simp
next
  case (Cons x ys)
  then show ?thesis unfolding Cons py_max.simps py_max_fold by auto
qed

lemma py_max_isl_iff: "isl (py_max xs) \<longleftrightarrow> xs = []"
  by (cases xs) auto

lemmas effect_defs =
  new_client_def materialize_get_versions_def materialize_get_timestamp_def
  materialize_server_version_def

lemma try_body_fst_indep: "fst (try_body d c s) = fst (try_body d' c s')"
  by (simp add: try_body_def effect_defs split: sum.splits)

lemma try_body_isl_iff: "isl (fst (try_body d c s)) \<longleftrightarrow> fetch_raises c"
  by (auto simp: try_body_def effect_defs fetch_raises_def isl_def split: sum.splits)

lemma try_body_Inr_iff:
  "fst (try_body d c s) = Inr (lv, ev, ts, sv) \<longleftrightarrow>
     (\<exists>vs xs. get_versions c False = Inr vs \<and> py_max vs = Inr lv \<and>
              get_versions c True = Inr xs \<and> py_max xs = Inr ev \<and>
              get_timestamp c lv = Inr ts \<and> server_version c = Inr sv)"
  by (auto simp: try_body_def effect_defs split: sum.splits)

lemma check_materialization_Inl:
  "CAVEclient w d = Inl e \<Longrightarrow> check_materialization w d s = (Inl e, s @ [NewClient d])"
  by (simp add: check_materialization_def new_client_def)

lemma check_materialization_fst:
  assumes "CAVEclient w d = Inr c"
  shows "fst (check_materialization w d s) =
           (case fst (try_body d c s') of
              Inr (lv, ev, ts, sv) \<Rightarrow> Inr (Some lv, Some ev, Some ts, local_server c, Some sv)
            | Inl e \<Rightarrow> Inr (None, None, None, local_server c, None))"
proof -
  obtain r s2 where r: "try_body d c (s @ [NewClient d]) = (r, s2)"
    by (cases "try_body d c (s @ [NewClient d])")
  have "fst (try_body d c s') = r"
    using try_body_fst_indep [of d c s' d "s @ [NewClient d]"] r by simp
  then show ?thesis
    using assms r by (simp add: check_materialization_def new_client_def split: sum.splits)
qed

lemma check_materialization_raises:
  "CAVEclient w d = Inr c \<Longrightarrow> fetch_raises c \<Longrightarrow>
   fst (check_materialization w d s) = Inr (None, None, None, local_server c, None)"
  using try_body_isl_iff [of d c "[]"]
  by (auto simp: check_materialization_fst [of w d c s "[]"] isl_def)

lemma check_materialization_returns:
  assumes "CAVEclient w d = Inr c" "\<not> fetch_raises c"
  shows "\<exists>lv ev ts sv. fst (try_body d c []) = Inr (lv, ev, ts, sv) \<and>
    (\<forall>s. fst (check_materialization w d s) =
          Inr (Some lv, Some ev, Some ts, local_server c, Some sv))"
proof -
  from assms(2) try_body_isl_iff [of d c "[]"] obtain x
    where x: "fst (try_body d c []) = Inr x"
    by (cases "fst (try_body d c [])") auto
  obtain lv ev ts sv where "x = (lv, ev, ts, sv)" by (cases x) auto
  with x have t: "fst (try_body d c []) = Inr (lv, ev, ts, sv)" by simp
  have "fst (check_materialization w d s) = Inr (Some lv, Some ev, Some ts, local_server c, Some sv)" for s
    by (simp add: check_materialization_fst [OF assms(1), of s "[]"] t)
  with t show ?thesis by blast
qed

lemma check_materialization_fst_indep:
  "fst (check_materialization w d s) = fst (check_materialization w d s')"
proof (cases "CAVEclient w d")
  case (Inl e)
  then show ?thesis by (simp add: check_materialization_Inl)
next
  case (Inr c)
  then show ?thesis
    by (simp add: check_materialization_fst [OF Inr, of _ "[]"])
qed

subsection \<open>The audit loop\<close>

lemma audit_row_raises:
  "CAVEclient w d = Inr c \<Longrightarrow> fetch_raises c \<Longrightarrow> audit_row w cur d = None"
  by (simp add: audit_row_def check_materialization_raises)

lemma audit_row_no_client:
  "CAVEclient w d = Inl e \<Longrightarrow> audit_row w cur d = None"
  by (simp add: audit_row_def check_materialization_Inl)

lemma audit_row_returns:
  assumes "CAVEclient w d = Inr c" "\<not> fetch_raises c"
  shows "\<exists>lv ev ts sv.
    (\<forall>s. fst (check_materialization w d s) =
          Inr (Some lv, Some ev, Some ts, local_server c, Some sv)) \<and>
    audit_row w cur d = Some (format_row_data d (local_server c) sv lv ev ts cur (lv = ev))"
proof -
  from check_materialization_returns [OF assms] obtain lv ev ts sv where
    c: "\<forall>s. fst (check_materialization w d s) =
          Inr (Some lv, Some ev, Some ts, local_server c, Some sv)"
    by blast
  have "audit_row w cur d = Some (format_row_data d (local_server c) sv lv ev ts cur (lv = ev))"
    by (simp add: audit_row_def c)
  with c show ?thesis by blast
qed

lemma audit_loop_Cons:
  "audit_loop w cur (d # ds) t s =
     (case check_materialization w d s of
        (Inl e, s1) \<Rightarrow> (Inl e, s1)
      | (Inr r, s1) \<Rightarrow>
          audit_loop w cur ds (case audit_row w cur d of None \<Rightarrow> t | Some row \<Rightarrow> add_row t row) s1)"
proof -
  obtain r s1 where r: "check_materialization w d s = (r, s1)"
    by (cases "check_materialization w d s")
  then have f: "fst (check_materialization w d s) = r" by simp
  show ?thesis
  proof (cases "CAVEclient w d")
    case (Inl e)
    then show ?thesis by (simp add: check_materialization_Inl)
  next
    case (Inr c)
    show ?thesis
    proof (cases "fetch_raises c")
      case True
      have "r = Inr (None, None, None, local_server c, None)"
        using check_materialization_raises [OF Inr True, of s] f by simp
      then show ?thesis using r audit_row_raises [OF Inr True] by simp
    next
      case False
      from audit_row_returns [OF Inr False, of cur] obtain lv ev ts sv where
        c: "\<forall>s. fst (check_materialization w d s) = Inr (Some lv, Some ev, Some ts, local_server c, Some sv)"
        and a: "audit_row w cur d = Some (format_row_data d (local_server c) sv lv ev ts cur (lv = ev))"
        by blast
      have "r = Inr (Some lv, Some ev, Some ts, local_server c, Some sv)"
        using c f by simp
      then show ?thesis using r a by simp
    qed
  qed
qed

lemma check_materialization_with_client:
  assumes "CAVEclient w d = Inr c"
  shows "\<exists>lv ev ts sv. fst (check_materialization w d s) = Inr (lv, ev, ts, local_server c, sv)"
proof (cases "fetch_raises c")
  case True
  then show ?thesis using check_materialization_raises [OF assms] by blast
next
  case False
  then show ?thesis using check_materialization_returns [OF assms] by blast
qed

lemma audit_loop_fst_indep:
  "fst (audit_loop w cur ds t s) = fst (audit_loop w cur ds t s')"
proof (induction ds arbitrary: t s s')
  case Nil
  show ?case by simp
next
  case (Cons d ds)
  obtain r s1 where r: "check_materialization w d s = (r, s1)"
    by (cases "check_materialization w d s")
  obtain r' s1' where r': "check_materialization w d s' = (r', s1')"
    by (cases "check_materialization w d s'")
  have eq: "r' = r" using check_materialization_fst_indep [of w d s s'] r r' by simp
  show ?case
  proof (cases r)
    case (Inl e)
    then show ?thesis unfolding audit_loop_Cons r r' eq by simp
  next
    case (Inr x)
    then show ?thesis unfolding audit_loop_Cons r r' eq
      using Cons.IH [of _ s1 s1'] by simp
  qed
qed

lemma audit_loop_rows:
  "fst (audit_loop w cur ds t s) = Inr t' \<Longrightarrow>
   t' = t\<lparr>rows := rows t @ List.map_filter (audit_row w cur) ds\<rparr>"
proof (induction ds arbitrary: t s)
  case Nil
  then show ?case by (simp add: map_filter_simps)
next
  case (Cons d ds)
  obtain r s1 where r: "check_materialization w d s = (r, s1)"
    by (cases "check_materialization w d s")
  from Cons.prems obtain x where x: "r = Inr x"
    unfolding audit_loop_Cons r by (cases r) auto
  from Cons.prems have
    "fst (audit_loop w cur ds (case audit_row w cur d of None \<Rightarrow> t | Some row \<Rightarrow> add_row t row) s1) = Inr t'"
    unfolding audit_loop_Cons r x by simp
  from Cons.IH [OF this] show ?case
    by (cases "audit_row w cur d") (simp_all add: map_filter_simps add_row_def)
qed

lemma audit_loop_Inl:
  "fst (audit_loop w cur ds t s) = Inl e \<Longrightarrow> \<exists>d\<in>set ds. CAVEclient w d = Inl e"
proof (induction ds arbitrary: t s)
  case Nil
  then show ?case by simp
next
  case (Cons d ds)
  obtain r s1 where r: "check_materialization w d s = (r, s1)"
    by (cases "check_materialization w d s")
  show ?case
  proof (cases r)
    case (Inl e')
    with Cons.prems have "e' = e" unfolding audit_loop_Cons r by simp
    have "CAVEclient w d = Inl e"
    proof (cases "CAVEclient w d")
      case l: (Inl e2)
      then show ?thesis using check_materialization_Inl [OF l, of s] r Inl \<open>e' = e\<close> by simp
    next
      case (Inr c)
      then show ?thesis using check_materialization_with_client [OF Inr, of s] r Inl by auto
    qed
    then show ?thesis by simp
  next
    case (Inr x)
    with Cons.prems have
      "fst (audit_loop w cur ds (case audit_row w cur d of None \<Rightarrow> t | Some row \<Rightarrow> add_row t row) s1) = Inl e"
      unfolding audit_loop_Cons r by simp
    from Cons.IH [OF this] show ?thesis by simp
  qed
qed

lemma audit_loop_skip:
  assumes "CAVEclient w d = Inr c" "fetch_raises c"
  shows "fst (audit_loop w cur (pre @ d # post) t s) = fst (audit_loop w cur (pre @ post) t s)"
proof (induction pre arbitrary: t s)
  case Nil
  obtain r s1 where r: "check_materialization w d s = (r, s1)"
    by (cases "check_materialization w d s")
  have "r = Inr (None, None, None, local_server c, None)"
    using check_materialization_raises [OF assms, of s] r by simp
  then show ?case
    unfolding append_Nil audit_loop_Cons r
    using audit_row_raises [OF assms] audit_loop_fst_indep [of w cur post t s1 s]
    by simp
next
  case (Cons p pre)
  obtain r s1 where r: "check_materialization w p s = (r, s1)"
    by (cases "check_materialization w p s")
  show ?case
  proof (cases r)
    case (Inl e)
    then show ?thesis unfolding append_Cons audit_loop_Cons r by simp
  next
    case (Inr x)
    then show ?thesis unfolding append_Cons audit_loop_Cons r
      using Cons.IH by simp
  qed
qed

subsection \<open>The log of effects and the enumerator\<close>

lemma try_body_log: "\<exists>evs. snd (try_body d c s) = s @ evs \<and> Now \<notin> set evs"
  by (simp add: try_body_def effect_defs split: sum.splits)

lemma check_materialization_log:
  "\<exists>evs. snd (check_materialization w d s) = s @ evs \<and> Now \<notin> set evs"
proof (cases "CAVEclient w d")
  case (Inl e)
  then show ?thesis by (simp add: check_materialization_def new_client_def)
next
  case (Inr c)
  obtain r s2 where r: "try_body d c (s @ [NewClient d]) = (r, s2)"
    by (cases "try_body d c (s @ [NewClient d])")
  from try_body_log [of d c "s @ [NewClient d]"] r obtain evs
    where "s2 = s @ NewClient d # evs" "Now \<notin> set evs" by auto
  then show ?thesis using Inr r
    by (simp add: check_materialization_def new_client_def split: sum.splits)
qed

lemma fetch_datastacks_log:
  "\<exists>evs. snd (fetch_datastacks w servers acc s) = s @ evs \<and> Now \<notin> set evs"
proof (induction servers arbitrary: acc s)
  case Nil
  show ?case by simp
next
  case (Cons server rest)
  show ?case
  proof (cases "CAVEclient_server w server")
    case (Inl e)
    then show ?thesis by (simp add: new_server_client_def)
  next
    case c: (Inr c)
    show ?thesis
    proof (cases "get_datastacks c")
      case (Inl e)
      then show ?thesis using c by (simp add: new_server_client_def info_get_datastacks_def)
    next
      case (Inr ds)
      from Cons.IH [of "acc @ sort ds" "s @ [NewServerClient server, GetDatastacks server]"]
      obtain evs where
        "snd (fetch_datastacks w rest (acc @ sort ds) (s @ [NewServerClient server, GetDatastacks server]))
           = s @ NewServerClient server # GetDatastacks server # evs" "Now \<notin> set evs"
        by auto
      then show ?thesis using c Inr
        by (simp add: new_server_client_def info_get_datastacks_def)
    qed
  qed
qed

lemma get_datastacks_to_check_log:
  "\<exists>evs. snd (get_datastacks_to_check cfg w s) = s @ evs \<and> Now \<notin> set evs"
  using fetch_datastacks_log [of w "SERVERS_TO_CHECK cfg" "[]" s]
  by (simp add: get_datastacks_to_check_def)

lemma fetch_datastacks_step:
  "fst (fetch_datastacks w (server # rest) acc s) =
     (case server_listing w server of
        Inl e \<Rightarrow> Inl e
      | Inr ds \<Rightarrow> fst (fetch_datastacks w rest (acc @ sort ds)
                        (s @ [NewServerClient server, GetDatastacks server])))"
  by (simp add: server_listing_def new_server_client_def info_get_datastacks_def split: sum.splits)

lemma fetch_datastacks_Inr_iff:
  "fst (fetch_datastacks w servers acc s) = Inr r \<longleftrightarrow>
     (\<forall>server\<in>set servers. \<not> isl (server_listing w server)) \<and>
     r = acc @ concat (map (\<lambda>server. sort (projr (server_listing w server))) servers)"
proof (induction servers arbitrary: acc s)
  case Nil
  show ?case by auto
next
  case (Cons server rest)
  show ?case
  proof (cases "server_listing w server")
    case (Inl e)
    then show ?thesis by (simp add: fetch_datastacks_step del: fetch_datastacks.simps)
  next
    case (Inr ds)
    then show ?thesis
      by (simp add: fetch_datastacks_step Cons.IH del: fetch_datastacks.simps)
  qed
qed

lemma fetch_datastacks_Inl:
  "fst (fetch_datastacks w servers acc s) = Inl e \<Longrightarrow>
     \<exists>server\<in>set servers. server_listing w server = Inl e"
proof (induction servers arbitrary: acc s)
  case Nil
  then show ?case by simp
next
  case (Cons server rest)
  show ?case
  proof (cases "server_listing w server")
    case (Inl e')
    with Cons.prems show ?thesis by (simp add: fetch_datastacks_step del: fetch_datastacks.simps)
  next
    case (Inr ds)
    with Cons.prems have "fst (fetch_datastacks w rest (acc @ sort ds)
                        (s @ [NewServerClient server, GetDatastacks server])) = Inl e"
      by (simp add: fetch_datastacks_step del: fetch_datastacks.simps)
    from Cons.IH [OF this] show ?thesis by simp
  qed
qed

subsection \<open>Rows of the report\<close>

lemma audit_loop_log:
  "\<exists>evs. snd (audit_loop w cur ds t s) = s @ evs \<and> Now \<notin> set evs"
proof (induction ds arbitrary: t s)
  case Nil
  show ?case by simp
next
  case (Cons d ds)
  obtain r s1 where r: "check_materialization w d s = (r, s1)"
    by (cases "check_materialization w d s")
  from check_materialization_log [of w d s] r obtain evs1
    where s1: "s1 = s @ evs1" "Now \<notin> set evs1" by auto
  show ?case
  proof (cases r)
    case (Inl e)
    then show ?thesis unfolding audit_loop_Cons r using s1 by simp
  next
    case (Inr x)
    from Cons.IH [of "case audit_row w cur d of None \<Rightarrow> t | Some row \<Rightarrow> add_row t row" s1]
    obtain evs2 where
      "snd (audit_loop w cur ds (case audit_row w cur d of None \<Rightarrow> t | Some row \<Rightarrow> add_row t row) s1)
         = s1 @ evs2" "Now \<notin> set evs2"
      by blast
    then show ?thesis unfolding audit_loop_Cons r using s1 Inr by simp
  qed
qed

lemma audit_row_Some:
  "audit_row w cur d = Some r \<Longrightarrow>
   \<exists>lv ev ts srv sv.
     fst (check_materialization w d []) = Inr (Some lv, Some ev, Some ts, srv, Some sv) \<and>
     r = format_row_data d srv sv lv ev ts cur (lv = ev)"
  by (auto simp: audit_row_def split: sum.splits option.splits prod.splits)

lemma format_row_data_cells:
  "length (format_row_data d srv sv lv ev ts cur b) = 8"
  "plain (format_row_data d srv sv lv ev ts cur b ! 0) = d"
  "plain (format_row_data d srv sv lv ev ts cur b ! 1) = srv"
  "plain (format_row_data d srv sv lv ev ts cur b ! 2) = sv"
  "plain (format_row_data d srv sv lv ev ts cur b ! 3) = py_str ev"
  "plain (format_row_data d srv sv lv ev ts cur b ! 4) = py_str lv"
  "plain (format_row_data d srv sv lv ev ts cur b ! 5) = strftime_ymd (date_of ts)"
  "plain (format_row_data d srv sv lv ev ts cur b ! 6) = py_str (date_sub_days cur (date_of ts))"
  "plain (format_row_data d srv sv lv ev ts cur b ! 7) = (if b then ''Success'' else ''Failed'')"
  by (simp_all add: format_row_data_def create_styled_text_def Let_def)

lemma in_set_map_filter:
  "y \<in> set (List.map_filter f xs) \<longleftrightarrow> (\<exists>x\<in>set xs. f x = Some y)"
  by (induction xs) (auto split: option.splits)

lemma audit_rows_member:
  assumes "fst (audit_loop w cur ds t s) = Inr t'" "r \<in> set (rows t')" "r \<notin> set (rows t)"
  shows "\<exists>d\<in>set ds. audit_row w cur d = Some r"
proof -
  from audit_loop_rows [OF assms(1)] have "rows t' = rows t @ List.map_filter (audit_row w cur) ds"
    by simp
  with assms(2,3) have "r \<in> set (List.map_filter (audit_row w cur) ds)" by simp
  then show ?thesis by (simp add: in_set_map_filter)
qed

lemma audit_loop_total:
  assumes "\<forall>d\<in>set ds. \<not> isl (CAVEclient w d)"
  shows "fst (audit_loop w cur ds t s) = Inr (t\<lparr>rows := rows t @ List.map_filter (audit_row w cur) ds\<rparr>)"
proof (cases "fst (audit_loop w cur ds t s)")
  case (Inl e)
  from audit_loop_Inl [OF this] assms show ?thesis by auto
next
  case (Inr t')
  with audit_loop_rows [OF this] show ?thesis by simp
qed

lemma rows_create_result_table: "rows create_result_table = []"
  by (simp add: create_result_table_def TABLE_COLUMNS_def add_column_def)

lemma length_map_filter_le: "length (List.map_filter f xs) \<le> length xs"
  by (simp add: map_filter_def)

lemma fetch_raises_iff:
  "fetch_raises c \<longleftrightarrow>
     isl (get_versions c False) \<or> get_versions c False = Inr [] \<or>
     isl (get_versions c True) \<or> get_versions c True = Inr [] \<or>
     (\<exists>vs lv. get_versions c False = Inr vs \<and> py_max vs = Inr lv \<and> isl (get_timestamp c lv)) \<or>
     isl (server_version c)"
proof (cases "get_versions c False")
  case (Inl e)
  then show ?thesis by (simp add: fetch_raises_def)
next
  case a: (Inr vs)
  show ?thesis
  proof (cases vs)
    case Nil
    with a show ?thesis by (simp add: fetch_raises_def)
  next
    case (Cons v vs')
    then obtain lv where lv: "py_max vs = Inr lv" by simp
    show ?thesis
    proof (cases "get_versions c True")
      case (Inl e)
      with a lv show ?thesis by (simp add: fetch_raises_def)
    next
      case (Inr xs)
      with a lv Cons show ?thesis
        by (auto simp: fetch_raises_def py_max_isl_iff)
    qed
  qed
qed

lemma audit_row_datastack: "audit_row w cur d = Some r \<Longrightarrow> plain (r ! 0) = d"
  using audit_row_Some [of w cur d r] by (auto simp: format_row_data_cells)

lemma main_unfold:
  "main cfg w s =
     (case get_datastacks_to_check cfg w (s @ [Now]) of
        (Inl e, s2) \<Rightarrow> (Inl e, s2)
      | (Inr ds, s2) \<Rightarrow> audit_loop w (date_of (clock w (length s))) ds create_result_table s2)"
  by (simp add: main_def datetime_now_def Let_def)

lemma demo_client_ds3:
  "CAVEclient demo_world ''ds3'' = Inr (projr (demo_client ''ds3''))"
  "fetch_raises (projr (demo_client ''ds3''))"
  "local_server (projr (demo_client ''ds3'')) = ''https://b.example''"
  by (simp_all add: demo_world_def demo_client_def fetch_raises_def)

lemma demo_check_ds2:
  "fst (check_materialization demo_world ''ds2'' []) =
     Inr (Some 3, Some 5, Some (demo_timestamp 2024 2 27), ''https://a.example'', Some ''4.30.1'')"
  by code_simp

lemma demo_row2_in_report: "demo_row2 \<in> set (rows demo_report)"
  by (simp add: demo_report_def add_row_def)

lemma style_strings:
  "strip (style (get_style_config True) @ '' '' @ color (get_style_config True)) = ''green''"
  "strip (style (get_style_config False) @ '' '' @ color (get_style_config False)) = ''bold red''"
  by (simp_all add: get_style_config_def strip_def is_space_def)

lemma format_row_data_style:
  "stylized (format_row_data d srv sv lv ev ts cur b ! 7) = [if b then ''green'' else ''bold red'']"
  using style_strings
  by (cases b) (simp_all add: format_row_data_def create_styled_text_def Let_def)

lemma check_materialization_returns_client:
  assumes "fst (check_materialization w d s) = Inr (lv, ev, ts, srv, sv)"
  shows "\<exists>c. CAVEclient w d = Inr c \<and> srv = local_server c"
proof (cases "CAVEclient w d")
  case (Inl e)
  with assms show ?thesis by (simp add: check_materialization_Inl)
next
  case (Inr c)
  from check_materialization_with_client [OF Inr, of s] assms Inr show ?thesis by auto
qed

lemma audit_loop_Inr_clients:
  "fst (audit_loop w cur ds t s) = Inr t' \<Longrightarrow> \<forall>d\<in>set ds. \<not> isl (CAVEclient w d)"
proof (induction ds arbitrary: t s)
  case Nil
  show ?case by simp
next
  case (Cons d ds)
  obtain r s1 where r: "check_materialization w d s = (r, s1)"
    by (cases "check_materialization w d s")
  from Cons.prems obtain x where x: "r = Inr x"
    unfolding audit_loop_Cons r by (cases r) auto
  have "\<not> isl (CAVEclient w d)"
  proof
    assume "isl (CAVEclient w d)"
    then obtain e where "CAVEclient w d = Inl e" by (auto simp: isl_def)
    from check_materialization_Inl [OF this, of s] r x show False by simp
  qed
  moreover from Cons.prems have
    "fst (audit_loop w cur ds (case audit_row w cur d of None \<Rightarrow> t | Some row \<Rightarrow> add_row t row) s1) = Inr t'"
    unfolding audit_loop_Cons r x by simp
  from Cons.IH [OF this] have "\<forall>d\<in>set ds. \<not> isl (CAVEclient w d)" .
  ultimately show ?case by simp
qed

section \<open>The claims\<close>

subsection \<open>C1: which raises check\_materialization catches\<close>

text \<open>
  At the datastack \<open>ds0\<close> of \<open>demo_world\<close> the client cannot be built: step 1 raises, and
  the exception leaves \<open>check_materialization\<close>; nothing is returned. Line 47 is outside
  the \<^verbatim>\<open>try\<close>.
\<close>

theorem client_construction_raise_escapes:
  "CAVEclient demo_world ''ds0'' = Inl (Raised ''ConnectionError'') \<and>
   fst (check_materialization demo_world ''ds0'' []) = Inl (Raised ''ConnectionError'')"
  by (simp add: check_materialization_def new_client_def demo_world_def demo_client_def)

text \<open>
  C1, as the code has it. A raise by the construction of the client (step 1) propagates.
  Once the client exists, a raise at any of the steps 2 to 5 (the listing of active
  versions raises or is empty, the listing with expired versions raises or is empty, the
  timestamp of the latest active version cannot be fetched, the server version cannot be
  read) is caught, and the function returns the tuple whose four data fields are all
  \<^verbatim>\<open>None\<close>, with the server of the client in fourth place.
\<close>

theorem check_materialization_catches_fetch_raise:
  "(CAVEclient w d = Inl e \<longrightarrow> fst (check_materialization w d s) = Inl e) \<and>
   (CAVEclient w d = Inr c \<and>
    (isl (get_versions c False) \<or> get_versions c False = Inr [] \<or>
     isl (get_versions c True) \<or> get_versions c True = Inr [] \<or>
     (\<exists>vs lv. get_versions c False = Inr vs \<and> py_max vs = Inr lv \<and> isl (get_timestamp c lv)) \<or>
     isl (server_version c)) \<longrightarrow>
      fst (check_materialization w d s) = Inr (None, None, None, local_server c, None))"
  using check_materialization_raises [of w d c s]
  by (simp add: check_materialization_Inl fetch_raises_iff)

theorem check_materialization_catches_fetch_raise_witness:
  "CAVEclient demo_world ''ds0'' = Inl (Raised ''ConnectionError'') \<and>
   fst (check_materialization demo_world ''ds0'' [Now]) = Inl (Raised ''ConnectionError'') \<and>
   CAVEclient demo_world ''ds3'' = Inr (projr (demo_client ''ds3'')) \<and>
   isl (get_versions (projr (demo_client ''ds3'')) False) \<and>
   fst (check_materialization demo_world ''ds3'' [Now]) =
     Inr (None, None, None, ''https://b.example'', None)"
proof -
  have a: "CAVEclient demo_world ''ds0'' = Inl (Raised ''ConnectionError'')"
    by (simp add: demo_world_def demo_client_def)
  have v: "isl (get_versions (projr (demo_client ''ds3'')) False)"
    by (simp add: demo_client_def)
  from check_materialization_catches_fetch_raise
         [of demo_world "''ds0''" "Raised ''ConnectionError''" "[Now]"]
       check_materialization_catches_fetch_raise
         [of demo_world "''ds3''" _ "[Now]" "projr (demo_client ''ds3'')"]
       a v demo_client_ds3
  show ?thesis by simp
qed

subsection \<open>C2: a failed check leaves no row and no exception of its own\<close>

text \<open>
  In \<open>demo_world\<close> the check of \<open>ds3\<close> raises at a fetch step and no client can be built
  for \<open>ds9\<close>. The audit of the two skips \<open>ds3\<close> and then ends with the exception raised
  by the construction of the client of \<open>ds9\<close>: an exception leaves the loop, and
  \<open>main\<close>, in a run in which a check raised at a fetch step.
\<close>

theorem fetch_raise_then_client_raise_escapes:
  "CAVEclient demo_world ''ds3'' = Inr (projr (demo_client ''ds3'')) \<and>
   fetch_raises (projr (demo_client ''ds3'')) \<and>
   fst (audit_loop demo_world demo_day [''ds3'', ''ds9''] create_result_table []) =
     Inl (Raised ''ConnectionError'') \<and>
   fst (main \<lparr>SERVERS_TO_CHECK = [], DATASTACKS_TO_CHECK = [''ds9'', ''ds3'']\<rparr> demo_world []) =
     Inl (Raised ''ConnectionError'')"
proof -
  have a: "fst (audit_loop demo_world demo_day [''ds3'', ''ds9''] create_result_table []) =
     Inl (Raised ''ConnectionError'')"
    by code_simp
  have m: "fst (main \<lparr>SERVERS_TO_CHECK = [], DATASTACKS_TO_CHECK = [''ds9'', ''ds3'']\<rparr> demo_world []) =
     Inl (Raised ''ConnectionError'')"
    by code_simp
  from demo_client_ds3(1,2) a m show ?thesis by simp
qed

text \<open>
  C2, as the code has it. Let the check of datastack \<open>d\<close> raise at a fetch step (steps 2
  to 5, inside the \<^verbatim>\<open>try\<close>). Then the audit of a sequence containing \<open>d\<close> ends as the audit
  of the sequence without it: the raise does not leave the loop and \<open>d\<close> gets no row. An
  exception leaves the loop exactly when the construction of the client of another
  datastack raises, and it is that exception. When there is none, the loop runs to its
  end, the report has fewer rows than the sequence has datastacks, and no row carries the
  name \<open>d\<close>.
\<close>

theorem audit_loop_skips_failed_check:
  assumes "CAVEclient w d = Inr c" and "fetch_raises c"
  shows "fst (audit_loop w cur (pre @ d # post) create_result_table s) =
           fst (audit_loop w cur (pre @ post) create_result_table s) \<and>
         (isl (fst (audit_loop w cur (pre @ d # post) create_result_table s)) \<longleftrightarrow>
            (\<exists>x\<in>set (pre @ post). isl (CAVEclient w x))) \<and>
         (\<forall>e. fst (audit_loop w cur (pre @ d # post) create_result_table s) = Inl e \<longrightarrow>
              (\<exists>x\<in>set (pre @ post). x \<noteq> d \<and> CAVEclient w x = Inl e)) \<and>
         ((\<forall>x\<in>set (pre @ post). \<not> isl (CAVEclient w x)) \<longrightarrow>
            (\<exists>t. fst (audit_loop w cur (pre @ d # post) create_result_table s) = Inr t \<and>
                 rows t = List.map_filter (audit_row w cur) (pre @ post) \<and>
                 length (rows t) < length (pre @ d # post) \<and>
                 (\<forall>r\<in>set (rows t). plain (r ! 0) \<noteq> d)))"
proof -
  let ?with = "fst (audit_loop w cur (pre @ d # post) create_result_table s)"
  have skip: "?with = fst (audit_loop w cur (pre @ post) create_result_table s)"
    by (rule audit_loop_skip [OF assms])
  have escapes: "\<exists>x\<in>set (pre @ post). x \<noteq> d \<and> CAVEclient w x = Inl e" if "?with = Inl e" for e
  proof -
    from that have "fst (audit_loop w cur (pre @ post) create_result_table s) = Inl e"
      using skip by simp
    from audit_loop_Inl [OF this] obtain x where x: "x \<in> set (pre @ post)" "CAVEclient w x = Inl e"
      by blast
    with assms(1) have "x \<noteq> d" by auto
    with x show ?thesis by blast
  qed
  have completes: "\<exists>t. ?with = Inr t \<and>
                 rows t = List.map_filter (audit_row w cur) (pre @ post) \<and>
                 length (rows t) < length (pre @ d # post) \<and>
                 (\<forall>r\<in>set (rows t). plain (r ! 0) \<noteq> d)"
    if ok: "\<forall>x\<in>set (pre @ post). \<not> isl (CAVEclient w x)"
  proof -
    let ?rs = "List.map_filter (audit_row w cur) (pre @ post)"
    let ?t = "create_result_table\<lparr>rows := ?rs\<rparr>"
    have t: "?with = Inr ?t"
      using audit_loop_total [OF ok, of cur create_result_table s] skip
      by (simp add: rows_create_result_table)
    have len: "length ?rs < length (pre @ d # post)"
      using length_map_filter_le [of "audit_row w cur" "pre @ post"] by simp
    have absent: "plain (r ! 0) \<noteq> d" if "r \<in> set ?rs" for r
    proof
      assume eq: "plain (r ! 0) = d"
      from that obtain x where x: "audit_row w cur x = Some r"
        by (auto simp: in_set_map_filter)
      from audit_row_datastack [OF x] eq have "x = d" by simp
      with x audit_row_raises [OF assms, of cur] show False by simp
    qed
    from t len absent show ?thesis by (intro exI [of _ ?t]) simp
  qed
  have iff: "isl ?with \<longleftrightarrow> (\<exists>x\<in>set (pre @ post). isl (CAVEclient w x))"
  proof
    assume "isl ?with"
    then obtain e where "?with = Inl e" by (auto simp: isl_def)
    from escapes [OF this] obtain x where "x \<in> set (pre @ post)" "CAVEclient w x = Inl e"
      by blast
    then have "x \<in> set (pre @ post)" "isl (CAVEclient w x)" by simp_all
    then show "\<exists>x\<in>set (pre @ post). isl (CAVEclient w x)" by blast
  next
    assume bad: "\<exists>x\<in>set (pre @ post). isl (CAVEclient w x)"
    show "isl ?with"
    proof (cases ?with)
      case (Inl e)
      then show ?thesis by simp
    next
      case (Inr t)
      from audit_loop_Inr_clients [OF this] bad show ?thesis by auto
    qed
  qed
  from skip iff escapes completes show ?thesis by blast
qed

theorem audit_loop_skips_failed_check_witness:
  "CAVEclient demo_world ''ds3'' = Inr (projr (demo_client ''ds3'')) \<and>
   fetch_raises (projr (demo_client ''ds3'')) \<and>
   \<not> isl (CAVEclient demo_world ''ds1'') \<and> \<not> isl (CAVEclient demo_world ''ds2'') \<and>
   fst (audit_loop demo_world demo_day ([''ds1''] @ ''ds3'' # [''ds2'']) create_result_table []) =
     Inr demo_report \<and>
   length (rows demo_report) = 2 \<and>
   fst (audit_loop demo_world demo_day ([] @ ''ds3'' # [''ds0'']) create_result_table []) =
     Inl (Raised ''ConnectionError'') \<and>
   CAVEclient demo_world ''ds0'' = Inl (Raised ''ConnectionError'')"
proof -
  have ok: "\<not> isl (CAVEclient demo_world ''ds1'')" "\<not> isl (CAVEclient demo_world ''ds2'')"
    by (simp_all add: demo_world_def demo_client_def)
  have r: "fst (audit_loop demo_world demo_day ([''ds1''] @ [''ds2'']) create_result_table []) =
     Inr demo_report"
    by code_simp
  have l: "length (rows demo_report) = 2"
    by (simp add: demo_report_def add_row_def rows_create_result_table)
  have e: "fst (audit_loop demo_world demo_day ([] @ [''ds0'']) create_result_table []) =
     Inl (Raised ''ConnectionError'')"
    by code_simp
  have c0: "CAVEclient demo_world ''ds0'' = Inl (Raised ''ConnectionError'')"
    by (simp add: demo_world_def demo_client_def)
  have a: "fst (audit_loop demo_world demo_day ([''ds1''] @ ''ds3'' # [''ds2'']) create_result_table []) =
      fst (audit_loop demo_world demo_day ([''ds1''] @ [''ds2'']) create_result_table [])"
    using audit_loop_skips_failed_check
         [OF demo_client_ds3(1,2), of demo_day "[''ds1'']" "[''ds2'']" "[]"]
    by (rule conjunct1)
  have b: "fst (audit_loop demo_world demo_day ([] @ ''ds3'' # [''ds0'']) create_result_table []) =
      fst (audit_loop demo_world demo_day ([] @ [''ds0'']) create_result_table [])"
    using audit_loop_skips_failed_check
         [OF demo_client_ds3(1,2), of demo_day "[]" "[''ds0'']" "[]"]
    by (rule conjunct1)
  show ?thesis
    unfolding a b r e using demo_client_ds3(1,2) ok l c0 by (intro conjI) simp_all
qed

subsection \<open>C3: the status of a row\<close>

text \<open>
  C3. Every row of the report comes from a datastack whose check returned four values,
  was formatted with the success flag \<open>latest_version = expected_latest_version\<close>, and
  its Status cell reads \<^verbatim>\<open>Success\<close> (in green) when the two versions are equal and
  \<^verbatim>\<open>Failed\<close> (in bold red) otherwise; so Status is \<^verbatim>\<open>Success\<close> exactly when the cells Latest Version and
  Expected Version show the same number.
\<close>

theorem report_status_is_version_equality:
  assumes "fst (audit_loop w cur ds create_result_table s) = Inr t" and "r \<in> set (rows t)"
  shows "\<exists>d lv ev ts srv sv.
           d \<in> set ds \<and>
           fst (check_materialization w d []) = Inr (Some lv, Some ev, Some ts, srv, Some sv) \<and>
           r = format_row_data d srv sv lv ev ts cur (lv = ev) \<and>
           plain (r ! 3) = py_str ev \<and> plain (r ! 4) = py_str lv \<and>
           plain (r ! 7) = (if lv = ev then ''Success'' else ''Failed'') \<and>
           stylized (r ! 7) = [if lv = ev then ''green'' else ''bold red''] \<and>
           (plain (r ! 7) = ''Success'' \<longleftrightarrow> plain (r ! 4) = plain (r ! 3))"
proof -
  from audit_rows_member [OF assms(1,2)] obtain d where d: "d \<in> set ds" "audit_row w cur d = Some r"
    by (auto simp: rows_create_result_table)
  from audit_row_Some [OF d(2)] obtain lv ev ts srv sv where
    c: "fst (check_materialization w d []) = Inr (Some lv, Some ev, Some ts, srv, Some sv)"
    and r: "r = format_row_data d srv sv lv ev ts cur (lv = ev)"
    by blast
  have "plain (r ! 7) = ''Success'' \<longleftrightarrow> plain (r ! 4) = plain (r ! 3)"
    unfolding r by (simp add: format_row_data_cells py_str_inj)
  with d(1) c r show ?thesis
    by (intro exI [of _ d] exI [of _ lv] exI [of _ ev] exI [of _ ts] exI [of _ srv] exI [of _ sv])
       (simp add: format_row_data_cells format_row_data_style)
qed

theorem report_status_is_version_equality_witness:
  "fst (audit_loop demo_world demo_day [''ds1'', ''ds2'', ''ds3''] create_result_table []) =
     Inr demo_report \<and>
   demo_row2 \<in> set (rows demo_report) \<and>
   plain (demo_row2 ! 3) = ''5'' \<and> plain (demo_row2 ! 4) = ''3'' \<and>
   plain (demo_row2 ! 7) = ''Failed'' \<and>
   (plain (demo_row2 ! 7) = ''Success'' \<longleftrightarrow> plain (demo_row2 ! 4) = plain (demo_row2 ! 3))"
proof -
  have h: "fst (audit_loop demo_world demo_day [''ds1'', ''ds2'', ''ds3''] create_result_table []) =
     Inr demo_report"
    by code_simp
  have v: "plain (demo_row2 ! 3) = ''5''" "plain (demo_row2 ! 4) = ''3''"
    "plain (demo_row2 ! 7) = ''Failed''"
    by code_simp+
  from report_status_is_version_equality [OF h demo_row2_in_report]
  have "plain (demo_row2 ! 7) = ''Success'' \<longleftrightarrow> plain (demo_row2 ! 4) = plain (demo_row2 ! 3)"
    by blast
  with h demo_row2_in_report v show ?thesis by simp
qed

subsection \<open>C4: the override list\<close>

text \<open>
  C4. With a non-empty override list the enumerator returns that list sorted (an ordered
  permutation of it), leaves the log of effects as it found it (no client is built, no
  listing is requested), and gives the same answer for any list of servers and any world.
\<close>

theorem override_is_sorted_without_network:
  assumes "DATASTACKS_TO_CHECK cfg \<noteq> []"
  shows "\<exists>r. get_datastacks_to_check cfg w s = (Inr r, s) \<and>
             sorted r \<and> mset r = mset (DATASTACKS_TO_CHECK cfg) \<and>
             r = sort (DATASTACKS_TO_CHECK cfg) \<and>
             get_datastacks_to_check (cfg\<lparr>SERVERS_TO_CHECK := servers\<rparr>) w' s = (Inr r, s)"
  using assms by (simp add: get_datastacks_to_check_def)

theorem override_is_sorted_without_network_witness:
  "DATASTACKS_TO_CHECK demo_override \<noteq> [] \<and>
   get_datastacks_to_check demo_override demo_world [Now] = (Inr [''ds1'', ''ds2'', ''ds3''], [Now])"
proof -
  have h: "DATASTACKS_TO_CHECK demo_override \<noteq> []" by (simp add: demo_override_def)
  have s: "sort (DATASTACKS_TO_CHECK demo_override) = [''ds1'', ''ds2'', ''ds3'']" by code_simp
  from override_is_sorted_without_network [OF h, of demo_world "[Now]"] h s
  show ?thesis by auto
qed

subsection \<open>C5: the listing of the servers\<close>

text \<open>
  C5. With an empty override list the enumerator returns a list exactly when the listing
  of every configured server succeeds, and that list is the concatenation, in the order
  of the servers, of each server's listing sorted on its own. In \<open>demo_world\<close> this is
  not the sorted union.
\<close>

theorem servers_concatenate_sorted_sublists:
  assumes "DATASTACKS_TO_CHECK cfg = []"
  shows "fst (get_datastacks_to_check cfg w s) = Inr r \<longleftrightarrow>
           (\<forall>server\<in>set (SERVERS_TO_CHECK cfg). \<not> isl (server_listing w server)) \<and>
           r = concat (map (\<lambda>server. sort (projr (server_listing w server))) (SERVERS_TO_CHECK cfg))"
  using assms fetch_datastacks_Inr_iff [of w "SERVERS_TO_CHECK cfg" "[]" s r]
  by (simp add: get_datastacks_to_check_def)

theorem servers_concatenate_sorted_sublists_witness:
  "DATASTACKS_TO_CHECK demo_servers = [] \<and>
   SERVERS_TO_CHECK demo_servers = [''https://a.example'', ''https://b.example''] \<and>
   \<not> isl (server_listing demo_world ''https://a.example'') \<and>
   \<not> isl (server_listing demo_world ''https://b.example'') \<and>
   fst (get_datastacks_to_check demo_servers demo_world []) = Inr [''ds1'', ''ds2'', ''ds0'', ''ds3''] \<and>
   [''ds1'', ''ds2'', ''ds0'', ''ds3''] \<noteq> sort [''ds2'', ''ds1'', ''ds3'', ''ds0'']"
proof -
  have h: "DATASTACKS_TO_CHECK demo_servers = []" by (simp add: demo_servers_def)
  have sv: "SERVERS_TO_CHECK demo_servers = [''https://a.example'', ''https://b.example'']"
    by (simp add: demo_servers_def)
  have ok: "\<not> isl (server_listing demo_world ''https://a.example'')"
    "\<not> isl (server_listing demo_world ''https://b.example'')"
    by (simp_all add: server_listing_def demo_world_def demo_server_def)
  have c: "concat (map (\<lambda>server. sort (projr (server_listing demo_world server)))
             (SERVERS_TO_CHECK demo_servers)) = [''ds1'', ''ds2'', ''ds0'', ''ds3'']"
    by code_simp
  have n: "[''ds1'', ''ds2'', ''ds0'', ''ds3''] \<noteq> sort [''ds2'', ''ds1'', ''ds3'', ''ds0'']"
    by code_simp
  from servers_concatenate_sorted_sublists
         [OF h, of demo_world "[]" "[''ds1'', ''ds2'', ''ds0'', ''ds3'']"]
    h sv ok c n
  show ?thesis by simp
qed

subsection \<open>C6: expected version against active version\<close>

text \<open>
  C6. When the check returns its two versions and the listing with expired versions
  contains every active version, both listings are non-empty, each version is the
  maximum of its listing, and the expected version is at least the active one.
\<close>

theorem latest_expected_ge_latest_active:
  assumes "fst (check_materialization w d s) = Inr (Some lv, Some ev, ts, srv, sv)"
    and "CAVEclient w d = Inr c"
    and "get_versions c False = Inr av" and "get_versions c True = Inr xv"
    and "set av \<subseteq> set xv"
  shows "av \<noteq> [] \<and> xv \<noteq> [] \<and> lv = Max (set av) \<and> ev = Max (set xv) \<and> lv \<le> ev"
proof -
  have nr: "\<not> fetch_raises c"
  proof
    assume "fetch_raises c"
    from check_materialization_raises [OF assms(2) this, of s] assms(1) show False by simp
  qed
  from check_materialization_returns [OF assms(2) nr] assms(1)
  have "\<exists>ts' sv'. fst (try_body d c []) = Inr (lv, ev, ts', sv')" by auto
  then obtain ts' sv' where "fst (try_body d c []) = Inr (lv, ev, ts', sv')" by blast
  with assms(3,4) have m: "py_max av = Inr lv" "py_max xv = Inr ev"
    by (auto simp: try_body_Inr_iff)
  then have ne: "av \<noteq> []" "xv \<noteq> []" and eq: "lv = Max (set av)" "ev = Max (set xv)"
    by (simp_all add: py_max_Inr_iff)
  have "Max (set av) \<le> Max (set xv)"
    using assms(5) ne by (intro Max_mono) auto
  with ne eq show ?thesis by simp
qed

theorem latest_expected_ge_latest_active_witness:
  "fst (check_materialization demo_world ''ds2'' []) =
     Inr (Some 3, Some 5, Some (demo_timestamp 2024 2 27), ''https://a.example'', Some ''4.30.1'') \<and>
   CAVEclient demo_world ''ds2'' = Inr (projr (demo_client ''ds2'')) \<and>
   get_versions (projr (demo_client ''ds2'')) False = Inr [1, 3] \<and>
   get_versions (projr (demo_client ''ds2'')) True = Inr [1, 5, 3] \<and>
   set [1, 3 :: int] \<subseteq> set [1, 5, 3] \<and>
   (3::int) = Max (set [1, 3]) \<and> (5::int) = Max (set [1, 5, 3]) \<and> (3::int) \<le> 5"
proof -
  have b: "CAVEclient demo_world ''ds2'' = Inr (projr (demo_client ''ds2''))"
    by (simp add: demo_world_def demo_client_def)
  have v: "get_versions (projr (demo_client ''ds2'')) False = Inr [1, 3]"
    "get_versions (projr (demo_client ''ds2'')) True = Inr [1, 5, 3]"
    by (simp_all add: demo_client_def)
  have sub: "set [1, 3 :: int] \<subseteq> set [1, 5, 3]" by simp
  from latest_expected_ge_latest_active [OF demo_check_ds2 b v sub] demo_check_ds2 b v sub
  show ?thesis by simp
qed

subsection \<open>C7: the age in days\<close>

text \<open>
  C7. For dates that the constructor of \<^verbatim>\<open>date\<close> accepts, the Days Old cell of a row is
  the difference of the ordinals of the current day and of the timestamp's date; it is
  non-negative exactly when the timestamp's date is not after the current day, and zero
  exactly when the two dates are equal.
\<close>

theorem days_old_is_ordinal_difference:
  assumes "valid_date cur" and "valid_date (date_of ts)"
  shows "plain (format_row_data d srv sv lv ev ts cur b ! 6) =
           py_str (toordinal cur - toordinal (date_of ts)) \<and>
         (0 \<le> date_sub_days cur (date_of ts) \<longleftrightarrow> date_le (date_of ts) cur) \<and>
         (date_sub_days cur (date_of ts) = 0 \<longleftrightarrow> date_eq (date_of ts) cur)"
  using toordinal_le_iff [OF assms(2,1)] toordinal_eq_iff [OF assms(2,1)]
  by (auto simp: format_row_data_cells date_sub_days_def)

theorem days_old_is_ordinal_difference_witness:
  "valid_date demo_day \<and> valid_date (date_of (demo_timestamp 2024 2 27)) \<and>
   plain (demo_row2 ! 6) = ''12'' \<and>
   date_le (date_of (demo_timestamp 2024 2 27)) demo_day \<and>
   0 \<le> date_sub_days demo_day (date_of (demo_timestamp 2024 2 27)) \<and>
   \<not> date_eq (date_of (demo_timestamp 2024 2 27)) demo_day \<and>
   date_sub_days demo_day (date_of (demo_timestamp 2024 2 27)) \<noteq> 0"
proof -
  have a: "valid_date demo_day" by code_simp
  have b: "valid_date (date_of (demo_timestamp 2024 2 27))" by code_simp
  have le: "date_le (date_of (demo_timestamp 2024 2 27)) demo_day" by code_simp
  have ne: "\<not> date_eq (date_of (demo_timestamp 2024 2 27)) demo_day" by code_simp
  have s: "py_str (toordinal demo_day - toordinal (date_of (demo_timestamp 2024 2 27))) = ''12''"
    by code_simp
  from days_old_is_ordinal_difference
         [OF a b, of "''ds2''" "''https://a.example''" "''4.30.1''" 3 5 False]
       a b le ne s
  show ?thesis by (simp add: demo_row2_def)
qed

subsection \<open>C8: one reading of the clock\<close>

text \<open>
  C8. A run of \<open>main\<close> reads the clock once, as its first effect, before any client is
  built; every row of the report it prints has its Days Old computed against the date of
  that one reading.
\<close>

theorem main_reads_clock_once:
  "(\<exists>evs. snd (main cfg w s) = s @ Now # evs \<and> Now \<notin> set evs) \<and>
   (\<forall>t. fst (main cfg w s) = Inr t \<longrightarrow>
      (\<forall>r\<in>set (rows t). \<exists>d lv ev ts srv sv.
         fst (check_materialization w d []) = Inr (Some lv, Some ev, Some ts, srv, Some sv) \<and>
         r = format_row_data d srv sv lv ev ts (date_of (clock w (length s))) (lv = ev) \<and>
         plain (r ! 6) = py_str (date_sub_days (date_of (clock w (length s))) (date_of ts))))"
proof -
  let ?cur = "date_of (clock w (length s))"
  obtain x s2 where x: "get_datastacks_to_check cfg w (s @ [Now]) = (x, s2)"
    by (cases "get_datastacks_to_check cfg w (s @ [Now])")
  from get_datastacks_to_check_log [of cfg w "s @ [Now]"] x obtain evs1
    where s2: "s2 = s @ Now # evs1" "Now \<notin> set evs1" by auto
  show ?thesis
  proof (cases x)
    case (Inl e)
    then show ?thesis unfolding main_unfold x using s2 by simp
  next
    case (Inr ds)
    have m: "main cfg w s = audit_loop w ?cur ds create_result_table s2"
      unfolding main_unfold x Inr by simp
    from audit_loop_log [of w ?cur ds create_result_table s2] obtain evs2
      where "snd (audit_loop w ?cur ds create_result_table s2) = s2 @ evs2" "Now \<notin> set evs2"
      by blast
    with s2 have log: "\<exists>evs. snd (main cfg w s) = s @ Now # evs \<and> Now \<notin> set evs"
      unfolding m by simp
    have row: "\<exists>d lv ev ts srv sv.
         fst (check_materialization w d []) = Inr (Some lv, Some ev, Some ts, srv, Some sv) \<and>
         r = format_row_data d srv sv lv ev ts ?cur (lv = ev) \<and>
         plain (r ! 6) = py_str (date_sub_days ?cur (date_of ts))"
      if t: "fst (main cfg w s) = Inr t" and r: "r \<in> set (rows t)" for t r
    proof -
      from t have "fst (audit_loop w ?cur ds create_result_table s2) = Inr t"
        unfolding m .
      from audit_rows_member [OF this r] obtain d where "audit_row w ?cur d = Some r"
        by (auto simp: rows_create_result_table)
      from audit_row_Some [OF this] obtain lv ev ts srv sv where
        c: "fst (check_materialization w d []) = Inr (Some lv, Some ev, Some ts, srv, Some sv)"
        and e: "r = format_row_data d srv sv lv ev ts ?cur (lv = ev)"
        by blast
      have "plain (r ! 6) = py_str (date_sub_days ?cur (date_of ts))"
        unfolding e by (simp add: format_row_data_cells)
      with c e show ?thesis by blast
    qed
    from log row show ?thesis by blast
  qed
qed

theorem main_reads_clock_once_witness:
  "fst (main demo_override demo_world []) = Inr demo_report \<and>
   hd (snd (main demo_override demo_world [])) = Now \<and>
   Now \<notin> set (tl (snd (main demo_override demo_world []))) \<and>
   date_of (clock demo_world (length ([]::log))) = demo_day \<and>
   date_of (clock demo_world 6) \<noteq> demo_day \<and>
   demo_row2 \<in> set (rows demo_report) \<and>
   plain (demo_row2 ! 6) = py_str (date_sub_days demo_day (date_of (demo_timestamp 2024 2 27))) \<and>
   plain (demo_row2 ! 6) = ''12''"
proof -
  have h: "fst (main demo_override demo_world []) = Inr demo_report" by code_simp
  have d0: "date_of (clock demo_world (length ([]::log))) = demo_day" by code_simp
  have d6: "date_of (clock demo_world 6) \<noteq> demo_day" by code_simp
  have v: "plain (demo_row2 ! 6) = py_str (date_sub_days demo_day (date_of (demo_timestamp 2024 2 27)))"
    "plain (demo_row2 ! 6) = ''12''"
    by code_simp+
  from main_reads_clock_once [of demo_override demo_world "[]"]
  obtain evs where "snd (main demo_override demo_world []) = [] @ Now # evs" "Now \<notin> set evs"
    by blast
  then have "hd (snd (main demo_override demo_world [])) = Now"
    "Now \<notin> set (tl (snd (main demo_override demo_world [])))"
    by simp_all
  with h d0 d6 demo_row2_in_report v show ?thesis by simp
qed

subsection \<open>C9: the server field of the returned tuple\<close>

text \<open>
  No client can be built for \<open>ds9\<close> in \<open>demo_world\<close>: \<open>check_materialization\<close> raises
  there and returns no tuple at all.
\<close>

theorem no_client_no_tuple:
  "CAVEclient demo_world ''ds9'' = Inl (Raised ''ConnectionError'') \<and>
   fst (check_materialization demo_world ''ds9'' [Now]) = Inl (Raised ''ConnectionError'')"
  by (simp add: check_materialization_def new_client_def demo_world_def demo_client_def)

text \<open>
  C9, as the code has it. \<open>check_materialization\<close> returns exactly when the client of the
  datastack exists, and what it returns is a tuple of five fields whose fourth is
  \<^verbatim>\<open>client.local_server\<close>, whether the fetch steps succeed or not; when they raise, the
  other four fields are \<^verbatim>\<open>None\<close> and the server is still there.
\<close>

theorem check_materialization_server_always:
  "(\<forall>c. CAVEclient w d = Inr c \<longrightarrow>
      (\<exists>lv ev ts sv. fst (check_materialization w d s) = Inr (lv, ev, ts, local_server c, sv)) \<and>
      (fetch_raises c \<longrightarrow>
         fst (check_materialization w d s) = Inr (None, None, None, local_server c, None))) \<and>
   (\<forall>lv ev ts srv sv. fst (check_materialization w d s) = Inr (lv, ev, ts, srv, sv) \<longrightarrow>
      (\<exists>c. CAVEclient w d = Inr c \<and> srv = local_server c))"
proof (intro conjI allI impI)
  fix c assume "CAVEclient w d = Inr c"
  then show "\<exists>lv ev ts sv. fst (check_materialization w d s) = Inr (lv, ev, ts, local_server c, sv)"
    by (rule check_materialization_with_client)
next
  fix c assume "CAVEclient w d = Inr c" "fetch_raises c"
  then show "fst (check_materialization w d s) = Inr (None, None, None, local_server c, None)"
    by (rule check_materialization_raises)
next
  fix lv ev ts srv sv
  assume "fst (check_materialization w d s) = Inr (lv, ev, ts, srv, sv)"
  then show "\<exists>c. CAVEclient w d = Inr c \<and> srv = local_server c"
    by (rule check_materialization_returns_client)
qed

theorem check_materialization_server_always_witness:
  "CAVEclient demo_world ''ds3'' = Inr (projr (demo_client ''ds3'')) \<and>
   fetch_raises (projr (demo_client ''ds3'')) \<and>
   fst (check_materialization demo_world ''ds3'' []) =
     Inr (None, None, None, ''https://b.example'', None)"
proof -
  have "CAVEclient demo_world ''ds3'' = Inr (projr (demo_client ''ds3'')) \<longrightarrow>
      (\<exists>lv ev ts sv. fst (check_materialization demo_world ''ds3'' []) =
          Inr (lv, ev, ts, local_server (projr (demo_client ''ds3'')), sv)) \<and>
      (fetch_raises (projr (demo_client ''ds3'')) \<longrightarrow>
         fst (check_materialization demo_world ''ds3'' []) =
           Inr (None, None, None, local_server (projr (demo_client ''ds3'')), None))"
    using check_materialization_server_always [of demo_world "''ds3''" "[]"] by (elim conjE allE)
  with demo_client_ds3 show ?thesis by simp
qed

subsection \<open>C10: all four data fields or none\<close>

text \<open>
  C10. In a tuple returned by \<open>check_materialization\<close> the latest version, the expected
  latest version, the latest timestamp and the server version are all \<^verbatim>\<open>None\<close> or none
  of them is, so the test of the first field in \<open>main\<close> decides for the four.
\<close>

theorem check_materialization_all_or_none:
  assumes "fst (check_materialization w d s) = Inr (lv, ev, ts, srv, sv)"
  shows "(lv = None \<and> ev = None \<and> ts = None \<and> sv = None) \<or>
         (lv \<noteq> None \<and> ev \<noteq> None \<and> ts \<noteq> None \<and> sv \<noteq> None)"
proof (cases "CAVEclient w d")
  case (Inl e)
  with assms show ?thesis by (simp add: check_materialization_Inl)
next
  case (Inr c)
  show ?thesis
  proof (cases "fetch_raises c")
    case True
    with assms check_materialization_raises [OF Inr True, of s] show ?thesis by simp
  next
    case False
    with assms check_materialization_returns [OF Inr False] show ?thesis by auto
  qed
qed

theorem check_materialization_all_or_none_witness:
  "fst (check_materialization demo_world ''ds2'' []) =
     Inr (Some 3, Some 5, Some (demo_timestamp 2024 2 27), ''https://a.example'', Some ''4.30.1'') \<and>
   ((Some (3::int) = None \<and> Some (5::int) = None \<and> Some (demo_timestamp 2024 2 27) = None
       \<and> Some ''4.30.1'' = None) \<or>
    (Some (3::int) \<noteq> None \<and> Some (5::int) \<noteq> None \<and> Some (demo_timestamp 2024 2 27) \<noteq> None
       \<and> Some ''4.30.1'' \<noteq> None))"
  using check_materialization_all_or_none [OF demo_check_ds2] demo_check_ds2
  by simp

end
